theory Spec2Isabelle
  imports Complex_Main "HOL-Library.Word"
begin

section \<open>RN PowerPoint Generator: credential gate and deck assembler\<close>

text \<open>
  A shallow embedding of \<^verbatim>\<open>ppt_genie_streamlit.py\<close>. The script is glue code over
  Streamlit, gspread and python-pptx; what those libraries hand back is taken as an input of
  the model (the fetched sheet, the widget values, the reading of an image blob), and the
  code of the script itself is translated function by function.

  Python \<^verbatim>\<open>str\<close> values are modelled as \<^typ>\<open>string\<close>, one \<^typ>\<open>char\<close> per code point, which
  covers the code points below 256. The pictographs that open some of the user-visible
  messages of the script lie outside that range and are left out of the message literals.
\<close>

subsection \<open>Exceptions, control flow and messages\<close>

text \<open>
  The exception classes the script distinguishes, each with the text \<^verbatim>\<open>str(e)\<close> gives.
  \<open>RefreshError\<close> is \<^verbatim>\<open>google.auth.exceptions.RefreshError\<close>, \<open>SpreadsheetNotFound\<close> is
  gspread's; every other subclass of \<^verbatim>\<open>Exception\<close> that no handler names is \<open>OtherException\<close>.
\<close>

datatype exn =
    RefreshError string
  | SpreadsheetNotFound string
  | AttributeError string
  | IndexError string
  | OtherException string

fun str_exn :: "exn \<Rightarrow> string" where
  "str_exn (RefreshError m) = m"
| "str_exn (SpreadsheetNotFound m) = m"
| "str_exn (AttributeError m) = m"
| "str_exn (IndexError m) = m"
| "str_exn (OtherException m) = m"

text \<open>
  How a piece of the script ends: it returns a value, it calls \<^verbatim>\<open>st.rerun()\<close> (Streamlit stops
  the run and starts the script again from the top with the session state as it is), or it
  raises.
\<close>

datatype 'r outcome = Returned 'r | Rerun | Raised exn

text \<open>What the page shows through \<^verbatim>\<open>st.error\<close> and \<^verbatim>\<open>st.success\<close>.\<close>

datatype ui_message = Error string | Success string

subsection \<open>Session state\<close>

text \<open>
  \<^verbatim>\<open>st.session_state\<close> is a dictionary; a key can be absent. Each field below is one key, with
  \<open>None\<close> for an absent key. \<open>selected_user\<close> can also hold Python's \<^verbatim>\<open>None\<close>, which is
  \<open>Some None\<close> here. The other keys of the script (\<^verbatim>\<open>selected_folder\<close>, \<^verbatim>\<open>selected_images\<close>, ...)
  live in the extension part of the record.
\<close>

record session_state =
  authenticated :: "bool option"
  selected_user :: "string option option"
  current_user :: "string option"
  user_email :: "string option"
  user_image :: "string option"

text \<open>
  \<^verbatim>\<open>show_logout_button\<close>, lines 378 to 387: the body of \<^verbatim>\<open>if st.button("Logout")\<close>. The argument
  \<open>pressed\<close> is what \<^verbatim>\<open>st.button\<close> returned. The three \<^verbatim>\<open>del\<close> statements are guarded by a
  membership test each.
\<close>

definition show_logout_button ::
  "bool \<Rightarrow> 'a session_state_scheme \<Rightarrow> 'a session_state_scheme \<times> unit outcome" where
  "show_logout_button pressed s =
     (if pressed then
        (let s1 = s\<lparr>authenticated := Some False\<rparr>;
             s2 = (if current_user s1 \<noteq> None then s1\<lparr>current_user := None\<rparr> else s1);
             s3 = (if user_email s2 \<noteq> None then s2\<lparr>user_email := None\<rparr> else s2);
             s4 = (if user_image s3 \<noteq> None then s3\<lparr>user_image := None\<rparr> else s3)
         in (s4, Rerun))
      else (s, Returned ()))"

subsection \<open>The user directory\<close>

text \<open>
  One entry of the dictionary \<^verbatim>\<open>users\<close>: the inner dictionary with the keys \<^verbatim>\<open>email\<close>,
  \<^verbatim>\<open>password\<close> and \<^verbatim>\<open>image_url\<close>, which line 88 always builds with all three.
\<close>

record user =
  email :: string
  password :: string
  image_url :: string

text \<open>
  A Python dictionary keeps its keys in the order of their first insertion, and the login
  screen reads \<^verbatim>\<open>list(users.keys())[0]\<close>, so the directory is an association list.
  \<open>dict_set\<close> is the assignment \<^verbatim>\<open>d[k] = v\<close>: an existing key keeps its place and takes the
  new value, a new key goes to the end.
\<close>

type_synonym directory = "(string \<times> user) list"

fun dict_set :: "('k \<times> 'v) list \<Rightarrow> 'k \<Rightarrow> 'v \<Rightarrow> ('k \<times> 'v) list" where
  "dict_set [] k v = [(k, v)]"
| "dict_set ((k', v') # d) k v =
     (if k' = k then (k, v) # d else (k', v') # dict_set d k v)"

text \<open>
  \<^verbatim>\<open>str.strip()\<close> removes leading and trailing whitespace. Below code point 256 Python's
  whitespace characters are the code points 9 to 13, 28 to 32, 133 and 160.
\<close>

definition isspace :: "char \<Rightarrow> bool" where
  "isspace c = ((of_char c :: nat) \<in> {9, 10, 11, 12, 13, 28, 29, 30, 31, 32, 133, 160})"

definition strip :: "string \<Rightarrow> string" where
  "strip s = rev (dropWhile isspace (rev (dropWhile isspace s)))"

text \<open>
  What \<^verbatim>\<open>sheet.get_all_records()\<close> gives: one dictionary per row, keyed by the header row.
  gspread turns a cell that reads as a number into an \<^verbatim>\<open>int\<close> or a \<^verbatim>\<open>float\<close>; every other cell,
  the empty one too, is a \<^verbatim>\<open>str\<close>. The script never reads the value of a number, so the model
  of a float cell carries none.
\<close>

datatype cell = Text string | IntCell int | FloatCell

type_synonym sheet_record = "(string \<times> cell) list"

definition quoted :: "string \<Rightarrow> string" where
  "quoted s = CHR 0x27 # s @ [CHR 0x27]"

definition no_attribute :: "string \<Rightarrow> string \<Rightarrow> exn" where
  "no_attribute ty attr =
     AttributeError (quoted ty @ '' object has no attribute '' @ quoted attr)"

text \<open>
  \<^verbatim>\<open>record.get(key, '').strip()\<close>: the default is the empty string; a number has no method
  \<^verbatim>\<open>strip\<close>, and Python raises \<^verbatim>\<open>AttributeError\<close>.
\<close>

definition get_strip :: "sheet_record \<Rightarrow> string \<Rightarrow> exn + string" where
  "get_strip rec key =
     (case map_of rec key of
        None \<Rightarrow> Inr (strip [])
      | Some (Text t) \<Rightarrow> Inr (strip t)
      | Some (IntCell i) \<Rightarrow> Inl (no_attribute ''int'' ''strip'')
      | Some FloatCell \<Rightarrow> Inl (no_attribute ''float'' ''strip''))"

text \<open>
  Lines 82 to 92, the body of the loop over the records: the four fields are read in the
  order name, email, password, image URL, and the row gives an entry when name, email and
  password are all non-empty (\<^verbatim>\<open>if name and email and password\<close>).
\<close>

definition convert_record :: "sheet_record \<Rightarrow> exn + (string \<times> user) option" where
  "convert_record rec =
     (case get_strip rec ''Name'' of Inl e \<Rightarrow> Inl e | Inr name \<Rightarrow>
     (case get_strip rec ''Email'' of Inl e \<Rightarrow> Inl e | Inr em \<Rightarrow>
     (case get_strip rec ''Password'' of Inl e \<Rightarrow> Inl e | Inr pw \<Rightarrow>
     (case get_strip rec ''Image_URL'' of Inl e \<Rightarrow> Inl e | Inr url \<Rightarrow>
        (if name \<noteq> [] \<and> em \<noteq> [] \<and> pw \<noteq> []
         then Inr (Some (name, \<lparr>email = em, password = pw, image_url = url\<rparr>))
         else Inr None)))))"

text \<open>Lines 80 to 94: the loop, with the dictionary built so far as accumulator.\<close>

fun convert_records :: "directory \<Rightarrow> sheet_record list \<Rightarrow> exn + directory" where
  "convert_records users [] = Inr users"
| "convert_records users (rec # records) =
     (case convert_record rec of
        Inl e \<Rightarrow> Inl e
      | Inr None \<Rightarrow> convert_records users records
      | Inr (Some (name, u)) \<Rightarrow> convert_records (dict_set users name u) records)"

text \<open>
  \<^verbatim>\<open>load_users_from_sheet\<close>. The argument \<open>fetched\<close> is what lines 62 to 77 end with (reading
  the secrets, building the credentials, opening the sheet, reading all records): the
  records, or the exception one of these calls raised. The result is the returned
  dictionary and the messages shown with \<^verbatim>\<open>st.error\<close>. The three handlers are tried in the
  order of the source. The five-minute cache of \<^verbatim>\<open>st.cache_data\<close> is outside the model.
\<close>

definition load_users_from_sheet ::
  "exn + sheet_record list \<Rightarrow> directory \<times> ui_message list" where
  "load_users_from_sheet fetched =
     (case (case fetched of Inl e \<Rightarrow> Inl e | Inr records \<Rightarrow> convert_records [] records) of
        Inr users \<Rightarrow> (users, [])
      | Inl (RefreshError m) \<Rightarrow>
          ([], [Error (''Authentication failed. '' @
                       ''Please check your Google Service Account credentials.'')])
      | Inl (SpreadsheetNotFound m) \<Rightarrow>
          ([], [Error ''User database not found. Please check the Google Sheet name.''])
      | Inl e \<Rightarrow> ([], [Error (''Error loading user data: '' @ str_exn e)]))"

text \<open>
  The vocabulary of the statements about the directory, read off the sheet itself. A field
  of a row is its text with the whitespace stripped, empty when the column is missing. A
  row is complete when its name, e-mail and password fields are all non-empty. The row that
  decides the entry of a name is the last complete row with that name.
\<close>

definition stripped_field :: "sheet_record \<Rightarrow> string \<Rightarrow> string" where
  "stripped_field rec key = (case map_of rec key of Some (Text t) \<Rightarrow> strip t | _ \<Rightarrow> [])"

definition complete_row :: "sheet_record \<Rightarrow> bool" where
  "complete_row rec =
     (stripped_field rec ''Name'' \<noteq> [] \<and> stripped_field rec ''Email'' \<noteq> []
      \<and> stripped_field rec ''Password'' \<noteq> [])"

definition user_of_row :: "sheet_record \<Rightarrow> user" where
  "user_of_row rec =
     \<lparr>email = stripped_field rec ''Email'', password = stripped_field rec ''Password'',
      image_url = stripped_field rec ''Image_URL''\<rparr>"

definition last_complete_row :: "sheet_record list \<Rightarrow> string \<Rightarrow> sheet_record option" where
  "last_complete_row records n =
     find (\<lambda>rec. complete_row rec \<and> stripped_field rec ''Name'' = n) (rev records)"

text \<open>A row none of whose four columns holds a number: each is a text cell or missing.\<close>

definition text_cell :: "sheet_record \<Rightarrow> string \<Rightarrow> bool" where
  "text_cell rec key =
     (case map_of rec key of Some (IntCell i) \<Rightarrow> False | Some FloatCell \<Rightarrow> False | _ \<Rightarrow> True)"

definition text_row :: "sheet_record \<Rightarrow> bool" where
  "text_row rec =
     (text_cell rec ''Name'' \<and> text_cell rec ''Email'' \<and> text_cell rec ''Password''
      \<and> text_cell rec ''Image_URL'')"

text \<open>
  An entry of the directory with a non-empty name, e-mail and password, none of which
  changes when stripped again.
\<close>

definition well_formed_entry :: "string \<times> user \<Rightarrow> bool" where
  "well_formed_entry e =
     (fst e \<noteq> [] \<and> email (snd e) \<noteq> [] \<and> password (snd e) \<noteq> []
      \<and> strip (fst e) = fst e \<and> strip (email (snd e)) = email (snd e)
      \<and> strip (password (snd e)) = password (snd e))"

text \<open>A sheet of three rows for the concrete checks: the second has a blank e-mail.\<close>

definition sample_sheet :: "sheet_record list" where
  "sample_sheet =
     [[(''Name'', Text ''Alice''), (''Email'', Text ''a@rn.example''),
       (''Password'', Text ''abc123''), (''Image_URL'', Text [])],
      [(''Name'', Text ''Bob''), (''Email'', Text ''  ''), (''Password'', Text ''pw'')],
      [(''Name'', Text '' Alice ''), (''Email'', Text ''alice@rn.example''),
       (''Password'', Text ''s3cret''), (''Image_URL'', Text [])]]"

text \<open>
  A sheet of three complete rows, two of them for the same name, in which the password of
  the third row reads as a number, so that \<^verbatim>\<open>get_all_records\<close> hands it over as an \<^verbatim>\<open>int\<close>.
\<close>

definition numeric_sheet :: "sheet_record list" where
  "numeric_sheet =
     [[(''Name'', Text ''Alice''), (''Email'', Text ''a1@rn.example''),
       (''Password'', Text ''p1''), (''Image_URL'', Text [])],
      [(''Name'', Text ''Alice''), (''Email'', Text ''a2@rn.example''),
       (''Password'', Text ''p2''), (''Image_URL'', Text [])],
      [(''Name'', Text ''Carol''), (''Email'', Text ''c@rn.example''),
       (''Password'', IntCell 2024), (''Image_URL'', Text [])]]"

subsection \<open>The login screen\<close>

text \<open>
  What the three widgets of the login screen return in one run of the script: the name
  chosen in \<^verbatim>\<open>st.selectbox\<close>, the text of the password field and whether the submit button
  of the form was pressed.
\<close>

record login_widgets =
  new_selection :: string
  password_input :: string
  login_button :: bool

text \<open>
  \<^verbatim>\<open>show_login\<close>, lines 328 to 338: the body of \<^verbatim>\<open>if login_button\<close>. Python evaluates the
  default argument \<^verbatim>\<open>list(users.keys())[0]\<close> before it calls \<^verbatim>\<open>get\<close>, so an empty directory raises
  \<^verbatim>\<open>IndexError\<close> here whether or not the key is set. \<^verbatim>\<open>get\<close> returns the default only when the
  key \<^verbatim>\<open>selected_user\<close> is absent; a stored \<^verbatim>\<open>None\<close> is returned as it is, and \<^verbatim>\<open>None in users\<close> is
  false. The password is compared with \<^verbatim>\<open>==\<close> on strings. On success the four keys are
  written and \<^verbatim>\<open>st.rerun()\<close> ends the run; otherwise the block shows an error and the function
  goes on to its \<^verbatim>\<open>return False\<close>.
\<close>

definition invalid_credentials :: ui_message where
  "invalid_credentials = Error ''Invalid credentials. Please try again.''"

definition login_attempt ::
  "directory \<Rightarrow> 'a session_state_scheme \<Rightarrow> string
     \<Rightarrow> 'a session_state_scheme \<times> ui_message list \<times> unit outcome" where
  "login_attempt users s pw =
     (case users of
        [] \<Rightarrow> (s, [], Raised (IndexError ''list index out of range''))
      | (first, u0) # rest \<Rightarrow>
          (case (case selected_user s of None \<Rightarrow> Some first | Some v \<Rightarrow> v) of
             None \<Rightarrow> (s, [invalid_credentials], Returned ())
           | Some cur \<Rightarrow>
               (case map_of users cur of
                  None \<Rightarrow> (s, [invalid_credentials], Returned ())
                | Some u \<Rightarrow>
                    (if pw = password u
                     then (s\<lparr>authenticated := Some True, current_user := Some cur,
                              user_email := Some (email u),
                              user_image := Some (image_url u)\<rparr>,
                           [Success (''Welcome back, '' @ cur @ ''!'')], Rerun)
                     else (s, [invalid_credentials], Returned ())))))"

text \<open>
  \<^verbatim>\<open>show_login\<close> as a whole, without the markup it writes. The directory is loaded first and
  an empty one ends the function. The selected user is initialised to the first key when
  the key is absent or \<^verbatim>\<open>None\<close>, and reset to the first key when it is not in the directory.
  A selection in the select box that differs from the stored one is stored and the script
  reruns. Otherwise a pressed submit button runs the block above, and the function returns
  \<^verbatim>\<open>False\<close> at its end.
\<close>

definition show_login ::
  "exn + sheet_record list \<Rightarrow> login_widgets \<Rightarrow> 'a session_state_scheme
     \<Rightarrow> 'a session_state_scheme \<times> ui_message list \<times> bool outcome" where
  "show_login fetched w s =
     (case load_users_from_sheet fetched of (users, msgs) \<Rightarrow>
      (case users of
         [] \<Rightarrow> (s, msgs @ [Error ''Unable to load user data. Please contact support.''],
                Returned False)
       | (first, u0) # rest \<Rightarrow>
           (let s1 = (if selected_user s = None \<or> selected_user s = Some None
                      then s\<lparr>selected_user := Some (Some first)\<rparr> else s);
                s2 = (case selected_user s1 of
                        Some (Some n) \<Rightarrow>
                          (if map_of users n = None
                           then s1\<lparr>selected_user := Some (Some first)\<rparr> else s1)
                      | _ \<Rightarrow> s1\<lparr>selected_user := Some (Some first)\<rparr>)
            in if Some (Some (new_selection w)) \<noteq> selected_user s2
               then (s2\<lparr>selected_user := Some (Some (new_selection w))\<rparr>, msgs, Rerun)
               else if login_button w
               then (case login_attempt users s2 (password_input w) of
                       (s3, m, Returned x) \<Rightarrow> (s3, msgs @ m, Returned False)
                     | (s3, m, Rerun) \<Rightarrow> (s3, msgs @ m, Rerun)
                     | (s3, m, Raised e) \<Rightarrow> (s3, msgs @ m, Raised e))
               else (s2, msgs, Returned False))))"

text \<open>
  \<^verbatim>\<open>check_authentication\<close>, the gate at the top of the script. Its handler catches every
  \<^verbatim>\<open>Exception\<close>; the exception by which \<^verbatim>\<open>st.rerun()\<close> stops the run is not one and passes.
\<close>

definition check_authentication ::
  "exn + sheet_record list \<Rightarrow> login_widgets \<Rightarrow> 'a session_state_scheme
     \<Rightarrow> 'a session_state_scheme \<times> ui_message list \<times> bool outcome" where
  "check_authentication fetched w s =
     (let s1 = (if authenticated s = None
                then s\<lparr>authenticated := Some False, selected_user := Some None\<rparr> else s)
      in if authenticated s1 \<noteq> Some True
         then (case show_login fetched w s1 of
                 (s2, m, Raised e) \<Rightarrow>
                   (s2, m @ [Error (''Authentication error: '' @ str_exn e)], Returned False)
               | r \<Rightarrow> r)
         else (s1, [], Returned True))"

text \<open>
  The condition of the statements about login: the name is a key of the directory and the
  submitted password is the stored one, compared as strings.
\<close>

definition credentials_ok :: "directory \<Rightarrow> string \<Rightarrow> string \<Rightarrow> bool" where
  "credentials_ok users nm pw =
     (case map_of users nm of None \<Rightarrow> False | Some u \<Rightarrow> pw = password u)"

text \<open>A directory of one user and a session waiting at the login screen, for concrete checks.\<close>

definition sample_directory :: directory where
  "sample_directory =
     [(''Alice'', \<lparr>email = ''alice@rn.example'', password = ''abc123'', image_url = []\<rparr>)]"

definition sample_session :: session_state where
  "sample_session =
     \<lparr>authenticated = Some False, selected_user = Some (Some ''Alice''),
      current_user = None, user_email = None, user_image = None\<rparr>"

subsection \<open>The deck assembler\<close>

text \<open>
  An uploaded file as Streamlit hands it over: its name and the bytes \<^verbatim>\<open>getvalue()\<close> returns.
\<close>

type_synonym bytes = "8 word list"

record uploaded_file =
  name :: string
  getvalue :: bytes

text \<open>
  The presentation as python-pptx holds it, as far as the script touches it: the slide size
  in English Metric Units and the slides in order, each with its shapes in order. A picture
  shape has the image it shows, its offset and its extent. The buffer the script returns is
  the serialised presentation and is identified with it; \<^verbatim>\<open>prs.save\<close> into a memory buffer is
  taken to succeed, so the outer handler of \<^verbatim>\<open>generate_ppt_from_images\<close>, which logs and raises
  again, has nothing to catch in the model.
\<close>

record picture =
  pic_image :: bytes
  pic_left :: int
  pic_top :: int
  pic_width :: int
  pic_height :: int

datatype shape = Placeholder string | Picture picture

record slide =
  shapes :: "shape list"

record presentation =
  slide_width :: int
  slide_height :: int
  slides :: "slide list"

text \<open>
  \<^verbatim>\<open>get_default_slide_size\<close> and \<^verbatim>\<open>pptx.util.Inches\<close>, which is \<^verbatim>\<open>int(inches * 914400)\<close>. The source
  computes with binary floating point; the two products it forms, of 13.33 and of 7.5 with
  914400, have the values 12188952 and 6858000 there as well, which are the values of the
  rational computation below.
\<close>

definition get_default_slide_size :: "rat \<times> rat" where
  "get_default_slide_size = (1333 / 100, 15 / 2)"

definition Inches :: "rat \<Rightarrow> int" where
  "Inches inches =
     (if 0 \<le> inches then \<lfloor>inches * 914400\<rfloor> else \<lceil>inches * 914400\<rceil>)"

text \<open>
  The temporary files. \<^verbatim>\<open>NamedTemporaryFile(delete=False, suffix=...)\<close> creates a file under a
  name no other file has, here a serial number with the suffix; the \<^verbatim>\<open>with\<close> block writes the
  bytes and closes the file, which stays since \<^verbatim>\<open>delete\<close> is false. \<^verbatim>\<open>os.unlink\<close> removes a file.
  Creating and writing the file are taken to succeed.
\<close>

type_synonym path = "nat \<times> string"

record filesystem =
  next_serial :: nat
  files :: "path \<rightharpoonup> bytes"

definition NamedTemporaryFile :: "string \<Rightarrow> bytes \<Rightarrow> filesystem \<Rightarrow> path \<times> filesystem" where
  "NamedTemporaryFile suffix content fsys =
     (let p = (next_serial fsys, suffix)
      in (p, \<lparr>next_serial = Suc (next_serial fsys), files = (files fsys)(p \<mapsto> content)\<rparr>))"

definition unlink :: "path \<Rightarrow> filesystem \<Rightarrow> filesystem" where
  "unlink p fsys = fsys\<lparr>files := (files fsys)(p := None)\<rparr>"

text \<open>\<^verbatim>\<open>s.split(c)\<close> for a separator of one character: the pieces between the separators.\<close>

fun split_on :: "char \<Rightarrow> string \<Rightarrow> string list" where
  "split_on c [] = [[]]"
| "split_on c (x # xs) =
     (if x = c then [] # split_on c xs
      else (case split_on c xs of [] \<Rightarrow> [[x]] | p # ps \<Rightarrow> (x # p) # ps))"

text \<open>
  How python-pptx reads an image blob, an input of the model: the native extent of the
  image in English Metric Units, or the text of the exception it raises for a blob it
  cannot read.
\<close>

type_synonym image_reader = "bytes \<Rightarrow> string + (int \<times> int)"

text \<open>
  \<^verbatim>\<open>slide.shapes.add_picture(path, left, top, width, height)\<close>, with the extent given or left
  out as a whole, the two ways the script calls it. The file is read from its path. A
  picture without a given extent takes the native one. When the image cannot be read the
  call raises before it adds any shape.
\<close>

definition add_picture ::
  "image_reader \<Rightarrow> filesystem \<Rightarrow> path \<Rightarrow> int \<Rightarrow> int \<Rightarrow> (int \<times> int) option \<Rightarrow> slide
     \<Rightarrow> exn + slide" where
  "add_picture rd fsys p x y extent sl =
     (case files fsys p of
        None \<Rightarrow> Inl (OtherException ''No such file or directory'')
      | Some blob \<Rightarrow>
          (case rd blob of
             Inl msg \<Rightarrow> Inl (OtherException msg)
           | Inr native \<Rightarrow>
               (case (case extent of None \<Rightarrow> native | Some wh \<Rightarrow> wh) of (w, h) \<Rightarrow>
                  Inr (sl\<lparr>shapes := shapes sl @
                         [Picture \<lparr>pic_image = blob, pic_left = x, pic_top = y,
                                   pic_width = w, pic_height = h\<rparr>]\<rparr>))))"

text \<open>
  What the loop of \<^verbatim>\<open>generate_ppt_from_images\<close> works on: the presentation, the temporary
  files and the lines written with \<^verbatim>\<open>logger.error\<close>.
\<close>

record assembly =
  prs :: presentation
  fs :: filesystem
  error_log :: "string list"

text \<open>
  Lines 614 to 644, the body of the loop for one uploaded file. The statements run in the
  order of the source: the temporary file is written; \<^verbatim>\<open>add_slide\<close> appends a slide of the
  blank layout to the presentation; the shapes the layout gave it are removed;
  \<^verbatim>\<open>add_picture\<close> reads the temporary file; \<^verbatim>\<open>os.unlink\<close> removes it. The slide is part of the
  presentation from \<^verbatim>\<open>add_slide\<close> on. When \<^verbatim>\<open>add_picture\<close> raises, the handler logs the error
  and the loop continues with the next file: the statements before the call have taken
  effect, the \<^verbatim>\<open>os.unlink\<close> after it is not reached.
\<close>

definition slide_layout_6 :: "shape list" where
  "slide_layout_6 = []"

definition process_image :: "image_reader \<Rightarrow> bool \<Rightarrow> uploaded_file \<Rightarrow> assembly \<Rightarrow> assembly" where
  "process_image rd auto_resize uploaded_file st =
     (case NamedTemporaryFile (''.'' @ last (split_on CHR ''.'' (name uploaded_file)))
             (getvalue uploaded_file) (fs st) of
        (tmp_file_path, fs1) \<Rightarrow>
          (let before = slides (prs st);
               slide0 = \<lparr>shapes = slide_layout_6\<rparr>;
               slide1 = slide0\<lparr>shapes := []\<rparr>
           in case add_picture rd fs1 tmp_file_path 0 0
                     (if auto_resize then Some (slide_width (prs st), slide_height (prs st))
                      else None) slide1 of
                Inr slide2 \<Rightarrow>
                  st\<lparr>prs := (prs st)\<lparr>slides := before @ [slide2]\<rparr>,
                     fs := unlink tmp_file_path fs1\<rparr>
              | Inl e \<Rightarrow>
                  st\<lparr>prs := (prs st)\<lparr>slides := before @ [slide1]\<rparr>,
                     fs := fs1,
                     error_log := error_log st @
                       [''Error processing image '' @ name uploaded_file @ '': '' @ str_exn e]\<rparr>))"

fun process_images :: "image_reader \<Rightarrow> bool \<Rightarrow> uploaded_file list \<Rightarrow> assembly \<Rightarrow> assembly" where
  "process_images rd auto_resize [] st = st"
| "process_images rd auto_resize (uploaded_file # image_files) st =
     process_images rd auto_resize image_files (process_image rd auto_resize uploaded_file st)"

text \<open>
  \<^verbatim>\<open>generate_ppt_from_images\<close>: a new presentation, which has no slide, takes the slide size of
  16 to 9, and the loop runs over the uploaded files in their order. The result holds the
  presentation that is saved into the returned buffer, and the temporary files and the log
  as the call leaves them.
\<close>

definition generate_ppt_from_images ::
  "image_reader \<Rightarrow> uploaded_file list \<Rightarrow> bool \<Rightarrow> filesystem \<Rightarrow> assembly" where
  "generate_ppt_from_images rd image_files auto_resize fsys =
     (case get_default_slide_size of (width_inches, height_inches) \<Rightarrow>
        process_images rd auto_resize image_files
          \<lparr>prs = \<lparr>slide_width = Inches width_inches, slide_height = Inches height_inches,
                  slides = []\<rparr>,
           fs = fsys, error_log = []\<rparr>)"

text \<open>
  For the concrete checks: a reader that accepts the blobs that begin with the byte 137,
  the first byte of a PNG file, and gives 9525 units for each byte of the blob as width
  and 19050 as height; two uploads it accepts and one it rejects; and a file system without
  temporary files.
\<close>

definition sample_reader :: image_reader where
  "sample_reader blob =
     (case blob of
        [] \<Rightarrow> Inl ''cannot identify image file''
      | b # bs \<Rightarrow>
          (if b = 137 then Inr (9525 * int (length blob), 19050)
           else Inl ''cannot identify image file''))"

definition valid_png :: uploaded_file where
  "valid_png = \<lparr>name = ''valid.png'', getvalue = [137, 80, 78, 71]\<rparr>"

definition corrupt_jpg :: uploaded_file where
  "corrupt_jpg = \<lparr>name = ''corrupt.jpg'', getvalue = [0, 1]\<rparr>"

definition valid2_png :: uploaded_file where
  "valid2_png = \<lparr>name = ''valid2.png'', getvalue = [137, 80]\<rparr>"

definition no_temporary_files :: filesystem where
  "no_temporary_files = \<lparr>next_serial = 0, files = Map.empty\<rparr>"

text \<open>
  The slide the loop body leaves in the presentation for one uploaded file, given the slide
  size \<open>w\<close> by \<open>h\<close>: one picture at the origin when the image can be read, with the slide's
  extent under \<open>auto_resize\<close> and the native one otherwise, and no shape at all when the
  image cannot be read.
\<close>

definition slide_of :: "image_reader \<Rightarrow> bool \<Rightarrow> int \<Rightarrow> int \<Rightarrow> uploaded_file \<Rightarrow> slide" where
  "slide_of rd auto_resize w h uploaded_file =
     (case rd (getvalue uploaded_file) of
        Inl msg \<Rightarrow> \<lparr>shapes = []\<rparr>
      | Inr native \<Rightarrow>
          \<lparr>shapes = [Picture \<lparr>pic_image = getvalue uploaded_file, pic_left = 0, pic_top = 0,
                                pic_width = (if auto_resize then w else fst native),
                                pic_height = (if auto_resize then h else snd native)\<rparr>]\<rparr>)"

section \<open>Properties\<close>

subsection \<open>Loading the directory\<close>

lemma strip_Nil: "strip [] = []" by (simp add: strip_def)

lemma last_dropWhile: "dropWhile P xs \<noteq> [] \<Longrightarrow> last (dropWhile P xs) = last xs"
  by (induction xs) (auto split: if_splits)

lemma strip_last: "strip s \<noteq> [] \<Longrightarrow> \<not> isspace (last (strip s))"
  unfolding strip_def by (simp add: last_rev hd_dropWhile)

lemma strip_hd: "strip s \<noteq> [] \<Longrightarrow> \<not> isspace (hd (strip s))"
proof -
  assume ne: "strip s \<noteq> []"
  let ?t = "dropWhile isspace s"
  let ?u = "dropWhile isspace (rev ?t)"
  from ne have u: "?u \<noteq> []" by (simp add: strip_def)
  have t: "?t \<noteq> []"
  proof
    assume "?t = []"
    with u show False by simp
  qed
  have "hd (strip s) = last ?u" using u by (simp add: strip_def hd_rev)
  also have "\<dots> = last (rev ?t)" using u by (rule last_dropWhile)
  also have "\<dots> = hd ?t" using t by (simp add: last_rev)
  finally show ?thesis using t by (simp add: hd_dropWhile)
qed

lemma strip_strip: "strip (strip s) = strip s"
proof (cases "strip s = []")
  case True then show ?thesis by (simp add: strip_Nil)
next
  case False
  then have a: "dropWhile isspace (strip s) = strip s"
    using strip_hd[of s] by (simp add: dropWhile_eq_self_iff)
  have b: "dropWhile isspace (rev (strip s)) = rev (strip s)"
    using False strip_last[of s] by (simp add: dropWhile_eq_self_iff hd_rev)
  show ?thesis unfolding strip_def[of "strip s"] by (simp add: a b)
qed

lemma map_of_dict_set: "map_of (dict_set d k v) = (map_of d)(k \<mapsto> v)"
  by (induction d k v rule: dict_set.induct) auto

lemma keys_dict_set: "set (map fst (dict_set d k v)) = insert k (set (map fst d))"
  by (induction d k v rule: dict_set.induct) auto

lemma distinct_dict_set: "distinct (map fst d) \<Longrightarrow> distinct (map fst (dict_set d k v))"
  by (induction d k v rule: dict_set.induct) (auto simp: keys_dict_set[simplified])

lemma set_dict_set: "set (dict_set d k v) \<subseteq> insert (k, v) (set d)"
  by (induction d k v rule: dict_set.induct) auto

lemma get_strip_text: "text_cell rec key \<Longrightarrow> get_strip rec key = Inr (stripped_field rec key)"
  by (auto simp: text_cell_def get_strip_def stripped_field_def strip_Nil split: option.splits cell.splits)

lemma get_strip_stripped: "get_strip rec key = Inr v \<Longrightarrow> strip v = v"
  by (auto simp: get_strip_def strip_Nil strip_strip split: option.splits cell.splits)

lemma convert_record_text:
  "text_row rec \<Longrightarrow> convert_record rec =
     Inr (if complete_row rec then Some (stripped_field rec ''Name'', user_of_row rec) else None)"
  by (simp add: text_row_def convert_record_def get_strip_text complete_row_def user_of_row_def)

lemma convert_record_entry:
  "convert_record rec = Inr (Some e) \<Longrightarrow> well_formed_entry e"
  by (auto simp: convert_record_def well_formed_entry_def get_strip_stripped
           split: sum.splits if_splits)

lemma convert_records_invariant:
  "convert_records acc records = Inr users \<Longrightarrow> list_all well_formed_entry acc \<Longrightarrow> distinct (map fst acc)
   \<Longrightarrow> list_all well_formed_entry users \<and> distinct (map fst users)"
proof (induction records arbitrary: acc)
  case Nil
  then show ?case by simp
next
  case (Cons r rs)
  show ?case
  proof (cases "convert_record r")
    case (Inl e)
    with Cons.prems show ?thesis by simp
  next
    case (Inr oe)
    show ?thesis
    proof (cases oe)
      case None
      with Inr Cons show ?thesis by simp
    next
      case (Some e)
      obtain n u where e: "e = (n, u)" by (cases e)
      have wf: "well_formed_entry (n, u)" using Inr Some e convert_record_entry by blast
      have 1: "list_all well_formed_entry (dict_set acc n u)"
        using Cons.prems(2) wf set_dict_set[of acc n u] by (auto simp: list_all_iff)
      have 2: "distinct (map fst (dict_set acc n u))"
        using Cons.prems(3) by (rule distinct_dict_set)
      from Cons.prems(1) Inr Some e have "convert_records (dict_set acc n u) rs = Inr users" by simp
      from Cons.IH[OF this 1 2] show ?thesis .
    qed
  qed
qed

lemma find_snoc:
  "find P (xs @ [x]) = (case find P xs of None \<Rightarrow> (if P x then Some x else None) | Some y \<Rightarrow> Some y)"
  by (induction xs) auto

lemma convert_records_text:
  "list_all text_row records \<Longrightarrow>
   \<exists>users. convert_records acc records = Inr users \<and>
     (\<forall>n. map_of users n = (case last_complete_row records n of
                              None \<Rightarrow> map_of acc n | Some rec \<Rightarrow> Some (user_of_row rec)))"
proof (induction records arbitrary: acc)
  case Nil
  then show ?case by (simp add: last_complete_row_def)
next
  case (Cons r rs)
  then have tr: "text_row r" and trs: "list_all text_row rs" by simp_all
  show ?case
  proof (cases "complete_row r")
    case True
    let ?acc = "dict_set acc (stripped_field r ''Name'') (user_of_row r)"
    from Cons.IH[OF trs, of ?acc] obtain users where
      u: "convert_records ?acc rs = Inr users" and
      m: "\<And>n. map_of users n = (case last_complete_row rs n of
                              None \<Rightarrow> map_of ?acc n | Some rec \<Rightarrow> Some (user_of_row rec))" by blast
    have "convert_records acc (r # rs) = Inr users"
      using u True by (simp add: convert_record_text[OF tr])
    moreover have "map_of users n = (case last_complete_row (r # rs) n of
                              None \<Rightarrow> map_of acc n | Some rec \<Rightarrow> Some (user_of_row rec))" for n
      using True by (simp add: m last_complete_row_def find_snoc map_of_dict_set split: option.splits)
    ultimately show ?thesis by blast
  next
    case False
    from Cons.IH[OF trs, of acc] obtain users where
      u: "convert_records acc rs = Inr users" and
      m: "\<And>n. map_of users n = (case last_complete_row rs n of
                              None \<Rightarrow> map_of acc n | Some rec \<Rightarrow> Some (user_of_row rec))" by blast
    have "convert_records acc (r # rs) = Inr users"
      using u False by (simp add: convert_record_text[OF tr])
    moreover have "map_of users n = (case last_complete_row (r # rs) n of
                              None \<Rightarrow> map_of acc n | Some rec \<Rightarrow> Some (user_of_row rec))" for n
      using False by (simp add: m last_complete_row_def find_snoc split: option.splits)
    ultimately show ?thesis by blast
  qed
qed

text \<open>
  Claim C7. Whatever exception the fetch raises, \<^verbatim>\<open>load_users_from_sheet\<close> returns the empty
  dictionary and shows exactly one error message, which is not empty. The function of the
  model is total: no exception of the fetch reaches the caller.
\<close>

theorem load_users_fails_soft:
  "fst (load_users_from_sheet (Inl e)) = []
   \<and> (\<exists>m. snd (load_users_from_sheet (Inl e)) = [Error m] \<and> m \<noteq> [])"
  by (cases e) (simp_all add: load_users_from_sheet_def)

text \<open>
  Every entry of the dictionary that \<^verbatim>\<open>load_users_from_sheet\<close> returns has a non-empty name,
  e-mail and password, each already stripped, and no name occurs twice. When the fetch
  gives records none of whose four columns holds a number, no message is shown and the
  entry of a name is built from the last complete row with that name: rows with an empty
  or missing name, e-mail or password give no entry, and a later row with the same name
  replaces an earlier one.
\<close>

lemma directory_of_text_rows:
  "list_all well_formed_entry (fst (load_users_from_sheet fetched))
   \<and> distinct (map fst (fst (load_users_from_sheet fetched)))
   \<and> (list_all text_row records \<longrightarrow>
        snd (load_users_from_sheet (Inr records)) = []
        \<and> (\<forall>n. map_of (fst (load_users_from_sheet (Inr records))) n
                = map_option user_of_row (last_complete_row records n)))"
proof -
  have inv: "list_all well_formed_entry (fst (load_users_from_sheet fetched))
             \<and> distinct (map fst (fst (load_users_from_sheet fetched)))"
  proof (cases fetched)
    case (Inl e)
    then show ?thesis by (cases e) (simp_all add: load_users_from_sheet_def)
  next
    case (Inr recs)
    show ?thesis
    proof (cases "convert_records [] recs")
      case (Inl e)
      with Inr show ?thesis by (cases e) (simp_all add: load_users_from_sheet_def)
    next
      case r: (Inr users)
      from convert_records_invariant[OF r]
      have "list_all well_formed_entry users \<and> distinct (map fst users)"
        by simp
      with Inr r show ?thesis by (simp add: load_users_from_sheet_def)
    qed
  qed
  have last_wins: "snd (load_users_from_sheet (Inr records)) = []
        \<and> (\<forall>n. map_of (fst (load_users_from_sheet (Inr records))) n
                = map_option user_of_row (last_complete_row records n))"
    if t: "list_all text_row records"
  proof -
    from convert_records_text[OF t, of "[]"] obtain users where
      u: "convert_records [] records = Inr users" and
      m: "\<And>n. map_of users n = (case last_complete_row records n of
                              None \<Rightarrow> map_of [] n | Some rec \<Rightarrow> Some (user_of_row rec))"
      by blast
    have l: "load_users_from_sheet (Inr records) = (users, [])"
      using u by (simp add: load_users_from_sheet_def)
    show ?thesis
      by (simp add: l m split: option.splits)
  qed
  from inv last_wins show ?thesis by blast
qed

lemma sample_sheet_text: "list_all text_row sample_sheet"
  by (simp add: sample_sheet_def text_row_def text_cell_def)

lemma sample_sheet_Alice:
  "map_option user_of_row (last_complete_row sample_sheet ''Alice'')
     = Some \<lparr>email = ''alice@rn.example'', password = ''s3cret'', image_url = []\<rparr>"
  by (simp add: sample_sheet_def last_complete_row_def complete_row_def stripped_field_def
        user_of_row_def strip_def isspace_def)

lemma sample_sheet_Bob:
  "map_option user_of_row (last_complete_row sample_sheet ''Bob'') = None"
  by (simp add: sample_sheet_def last_complete_row_def complete_row_def stripped_field_def
        strip_def isspace_def)

lemma directory_of_sample_sheet:
  "list_all text_row sample_sheet
   \<and> snd (load_users_from_sheet (Inr sample_sheet)) = []
   \<and> map_of (fst (load_users_from_sheet (Inr sample_sheet))) ''Alice''
       = Some \<lparr>email = ''alice@rn.example'', password = ''s3cret'', image_url = []\<rparr>
   \<and> map_of (fst (load_users_from_sheet (Inr sample_sheet))) ''Bob'' = None
   \<and> distinct (map fst (fst (load_users_from_sheet (Inr sample_sheet))))"
  using directory_of_text_rows [of "Inr sample_sheet" sample_sheet]
    sample_sheet_text sample_sheet_Alice sample_sheet_Bob
  by simp

text \<open>
  Claim C10, at a sheet in which one cell of the password column reads as a number. The
  first two rows alone give the directory the claim describes: one entry for the name they
  share, built from the later row. With the third row, which is complete as well, the call
  of \<^verbatim>\<open>strip\<close> on the number raises, the last handler returns the empty dictionary and
  shows an error: the two complete rows before it, and the replacement of the earlier by
  the later one, are lost, and not silently.
\<close>

theorem numeric_cell_empties_directory:
  "load_users_from_sheet (Inr (take 2 numeric_sheet)) =
     ([(''Alice'', \<lparr>email = ''a2@rn.example'', password = ''p2'', image_url = []\<rparr>)], [])
   \<and> load_users_from_sheet (Inr numeric_sheet) =
     ([], [Error (''Error loading user data: '' @ quoted ''int''
                  @ '' object has no attribute '' @ quoted ''strip'')])"
  by (simp add: load_users_from_sheet_def numeric_sheet_def convert_record_def get_strip_def
        no_attribute_def strip_def isspace_def)

subsection \<open>Logout\<close>

lemma show_logout_button_pressed:
  "show_logout_button True s =
     (s\<lparr>authenticated := Some False, current_user := None, user_email := None,
        user_image := None\<rparr>, Rerun)"
  by (cases s) (simp add: show_logout_button_def Let_def)

text \<open>
  Claim C4. Pressing logout leaves the session with \<open>authenticated\<close> false and the keys
  \<open>current_user\<close>, \<open>user_email\<close> and \<open>user_image\<close> absent, whatever the state before, changes no
  other key, and pressing it a second time gives the same session state as pressing it
  once.
\<close>

theorem logout_resets_and_is_idempotent:
  "authenticated (fst (show_logout_button True s)) = Some False
   \<and> current_user (fst (show_logout_button True s)) = None
   \<and> user_email (fst (show_logout_button True s)) = None
   \<and> user_image (fst (show_logout_button True s)) = None
   \<and> selected_user (fst (show_logout_button True s)) = selected_user s
   \<and> session_state.more (fst (show_logout_button True s)) = session_state.more s
   \<and> fst (show_logout_button True (fst (show_logout_button True s)))
       = fst (show_logout_button True s)"
  by (simp add: show_logout_button_pressed)

subsection \<open>Login\<close>

lemma login_attempt_cases:
  "selected_user s = Some (Some nm) \<Longrightarrow>
   login_attempt users s pw =
     (if users = [] then (s, [], Raised (IndexError ''list index out of range''))
      else (case map_of users nm of
            None \<Rightarrow> (s, [invalid_credentials], Returned ())
          | Some u \<Rightarrow>
              (if pw = password u
               then (s\<lparr>authenticated := Some True, current_user := Some nm,
                        user_email := Some (email u), user_image := Some (image_url u)\<rparr>,
                     [Success (''Welcome back, '' @ nm @ ''!'')], Rerun)
               else (s, [invalid_credentials], Returned ()))))"
  by (cases users) (simp_all add: login_attempt_def split: prod.splits del: map_of.simps)

lemma show_login_never_True: "snd (snd (show_login fetched w s)) \<noteq> Returned True"
  by (auto simp: show_login_def Let_def split: prod.splits list.splits outcome.splits)

lemma check_authentication_True_iff:
  "(snd (snd (check_authentication fetched w s)) = Returned True) = (authenticated s = Some True)"
proof (cases "authenticated s = Some True")
  case True
  then show ?thesis by (simp add: check_authentication_def)
next
  case False
  let ?s1 = "if authenticated s = None
             then s\<lparr>authenticated := Some False, selected_user := Some None\<rparr> else s"
  have "authenticated ?s1 \<noteq> Some True" using False by simp
  moreover have "snd (snd (show_login fetched w ?s1)) \<noteq> Returned True"
    by (rule show_login_never_True)
  ultimately show ?thesis using False
    by (auto simp: check_authentication_def Let_def split: prod.splits outcome.splits)
qed

lemma login_attempt_ok:
  assumes "selected_user s = Some (Some nm)" and "map_of users nm = Some u"
    and "pw = password u"
  shows "login_attempt users s pw =
           (s\<lparr>authenticated := Some True, current_user := Some nm,
               user_email := Some (email u), user_image := Some (image_url u)\<rparr>,
            [Success (''Welcome back, '' @ nm @ ''!'')], Rerun)"
proof -
  from assms(2) have "users \<noteq> []" by auto
  then show ?thesis
    by (simp add: login_attempt_cases[OF assms(1)] assms(2,3))
qed

lemma login_attempt_not_ok:
  assumes "selected_user s = Some (Some nm)" and "\<not> credentials_ok users nm pw"
  shows "login_attempt users s pw =
           (if users = [] then (s, [], Raised (IndexError ''list index out of range''))
            else (s, [invalid_credentials], Returned ()))"
  using assms(2)
  by (simp add: login_attempt_cases[OF assms(1)] credentials_ok_def split: option.splits)

text \<open>
  Claim C2. With \<open>nm\<close> the selected user of a session that is not authenticated, a submitted
  password logs in exactly when \<open>nm\<close> is a key of the directory and the password equals the
  stored one as a string: exactly then the block ends in \<^verbatim>\<open>st.rerun()\<close>, exactly then the
  session is authenticated afterwards, and exactly then the gate \<^verbatim>\<open>check_authentication\<close>
  returns \<^verbatim>\<open>True\<close> on the session the block leaves. On success the session is the old one with
  \<open>authenticated\<close> true and the name, e-mail and image URL of the record stored.
\<close>

theorem login_succeeds_iff_credentials_match:
  assumes "selected_user s = Some (Some nm)" and "authenticated s \<noteq> Some True"
  shows "((snd (snd (login_attempt users s pw)) = Rerun) = credentials_ok users nm pw)
       \<and> ((authenticated (fst (login_attempt users s pw)) = Some True)
            = credentials_ok users nm pw)
       \<and> ((snd (snd (check_authentication fetched w (fst (login_attempt users s pw))))
              = Returned True) = credentials_ok users nm pw)
       \<and> (\<forall>u. map_of users nm = Some u \<and> pw = password u \<longrightarrow>
             fst (login_attempt users s pw)
               = s\<lparr>authenticated := Some True, current_user := Some nm,
                    user_email := Some (email u), user_image := Some (image_url u)\<rparr>)"
proof (cases "credentials_ok users nm pw")
  case True
  then obtain u where u: "map_of users nm = Some u" "pw = password u"
    by (auto simp: credentials_ok_def split: option.splits)
  have ok: "login_attempt users s (password u)
              = (s\<lparr>authenticated := Some True, current_user := Some nm,
                   user_email := Some (email u), user_image := Some (image_url u)\<rparr>,
                 [Success (''Welcome back, '' @ nm @ ''!'')], Rerun)"
    by (rule login_attempt_ok[OF assms(1) u(1) refl])
  show ?thesis unfolding u(2) using True[unfolded u(2)] u(1)
    by (simp add: ok check_authentication_True_iff)
next
  case False
  note no = login_attempt_not_ok[OF assms(1) False]
  have none: "\<forall>u. map_of users nm = Some u \<and> pw = password u \<longrightarrow>
             fst (login_attempt users s pw)
               = s\<lparr>authenticated := Some True, current_user := Some nm,
                    user_email := Some (email u), user_image := Some (image_url u)\<rparr>"
    using False by (auto simp: credentials_ok_def)
  have rest: "((snd (snd (login_attempt users s pw)) = Rerun) = credentials_ok users nm pw)
       \<and> ((authenticated (fst (login_attempt users s pw)) = Some True)
            = credentials_ok users nm pw)
       \<and> ((snd (snd (check_authentication fetched w (fst (login_attempt users s pw))))
              = Returned True) = credentials_ok users nm pw)"
    using False assms(2) by (simp add: no check_authentication_True_iff)
  from rest none show ?thesis by blast
qed

theorem login_succeeds_iff_credentials_match_witness:
  "credentials_ok sample_directory ''Alice'' ''abc123''
   \<and> login_attempt sample_directory sample_session ''abc123''
       = (\<lparr>authenticated = Some True, selected_user = Some (Some ''Alice''),
           current_user = Some ''Alice'', user_email = Some ''alice@rn.example'',
           user_image = Some []\<rparr>,
          [Success ''Welcome back, Alice!''], Rerun)
   \<and> \<not> credentials_ok sample_directory ''Alice'' ''ABC123''
   \<and> snd (snd (login_attempt sample_directory sample_session ''ABC123'')) \<noteq> Rerun
   \<and> authenticated (fst (login_attempt sample_directory sample_session ''ABC123''))
       \<noteq> Some True"
proof -
  have sel: "selected_user sample_session = Some (Some ''Alice'')"
    by (simp add: sample_session_def)
  have una: "authenticated sample_session \<noteq> Some True"
    by (simp add: sample_session_def)
  have yes: "credentials_ok sample_directory ''Alice'' ''abc123''"
    by (simp add: credentials_ok_def sample_directory_def)
  have no: "\<not> credentials_ok sample_directory ''Alice'' ''ABC123''"
    by (simp add: credentials_ok_def sample_directory_def)
  have run: "login_attempt sample_directory sample_session ''abc123''
       = (\<lparr>authenticated = Some True, selected_user = Some (Some ''Alice''),
           current_user = Some ''Alice'', user_email = Some ''alice@rn.example'',
           user_image = Some []\<rparr>,
          [Success ''Welcome back, Alice!''], Rerun)"
    by (simp add: login_attempt_def sample_directory_def sample_session_def)
  from login_succeeds_iff_credentials_match [OF sel una, of sample_directory "''ABC123''"]
    yes no run
  show ?thesis by simp
qed

text \<open>
  Claim C3. With \<open>nm\<close> the selected user, an attempt that fails, because \<open>nm\<close> is no key of
  the directory or because the password differs from the stored one, leaves every key of
  the session as it was and does not end in \<^verbatim>\<open>st.rerun()\<close>: on a directory that is not empty
  the block shows the message for invalid credentials and falls through to the
  \<^verbatim>\<open>return False\<close> of \<^verbatim>\<open>show_login\<close>. A session that was not authenticated is still rejected by
  the gate. For a name in the directory and a wrong password, the whole of \<^verbatim>\<open>show_login\<close>
  returns \<^verbatim>\<open>False\<close> with the session unchanged.
\<close>

theorem failed_login_leaves_session_unchanged:
  assumes "selected_user s = Some (Some nm)" and "\<not> credentials_ok users nm pw"
  shows "fst (login_attempt users s pw) = s
       \<and> snd (snd (login_attempt users s pw)) \<noteq> Rerun
       \<and> (users \<noteq> [] \<longrightarrow> login_attempt users s pw = (s, [invalid_credentials], Returned ()))
       \<and> (authenticated s \<noteq> Some True \<longrightarrow>
            snd (snd (check_authentication fetched w (fst (login_attempt users s pw))))
              \<noteq> Returned True)
       \<and> (fst (load_users_from_sheet fetched) = users \<and> map_of users nm \<noteq> None \<longrightarrow>
            show_login fetched
                \<lparr>new_selection = nm, password_input = pw, login_button = True\<rparr> s
              = (s, snd (load_users_from_sheet fetched) @ [invalid_credentials],
                 Returned False))"
proof -
  note no = login_attempt_not_ok[OF assms]
  have whole: "show_login fetched
                \<lparr>new_selection = nm, password_input = pw, login_button = True\<rparr> s
              = (s, snd (load_users_from_sheet fetched) @ [invalid_credentials],
                 Returned False)"
    if l: "fst (load_users_from_sheet fetched) = users" and m: "map_of users nm \<noteq> None"
  proof -
    from m obtain a b xs where c: "users = (a, b) # xs" by (cases users) auto
    obtain msgs where ld: "load_users_from_sheet fetched = ((a, b) # xs, msgs)"
      using l c by (cases "load_users_from_sheet fetched") auto
    have la: "login_attempt ((a, b) # xs) s pw = (s, [invalid_credentials], Returned ())"
      using no unfolding c by simp
    have m': "map_of ((a, b) # xs) nm \<noteq> None"
      using m unfolding c .
    show ?thesis
      by (simp add: show_login_def ld Let_def assms(1) m' la del: map_of.simps)
  qed
  show ?thesis using whole
    by (simp add: no check_authentication_True_iff)
qed

theorem failed_login_leaves_session_unchanged_witness:
  "\<not> credentials_ok sample_directory ''Alice'' ''wrong''
   \<and> \<not> credentials_ok sample_directory ''Zed'' ''abc123''
   \<and> login_attempt sample_directory sample_session ''wrong''
       = (sample_session, [invalid_credentials], Returned ())
   \<and> login_attempt sample_directory (sample_session\<lparr>selected_user := Some (Some ''Zed'')\<rparr>)
         ''abc123''
       = (sample_session\<lparr>selected_user := Some (Some ''Zed'')\<rparr>, [invalid_credentials],
          Returned ())"
proof -
  have sel: "selected_user sample_session = Some (Some ''Alice'')"
    by (simp add: sample_session_def)
  have selz: "selected_user (sample_session\<lparr>selected_user := Some (Some ''Zed'')\<rparr>)
                = Some (Some ''Zed'')"
    by simp
  have no: "\<not> credentials_ok sample_directory ''Alice'' ''wrong''"
    by (simp add: credentials_ok_def sample_directory_def)
  have noz: "\<not> credentials_ok sample_directory ''Zed'' ''abc123''"
    by (simp add: credentials_ok_def sample_directory_def)
  have ne: "sample_directory \<noteq> []"
    by (simp add: sample_directory_def)
  from failed_login_leaves_session_unchanged [OF sel no]
    failed_login_leaves_session_unchanged [OF selz noz] no noz ne
  show ?thesis by simp
qed

subsection \<open>The deck assembler\<close>

lemma process_image_prs:
  "prs (process_image rd ar f st) =
     (prs st)\<lparr>slides := slides (prs st)
                  @ [slide_of rd ar (slide_width (prs st)) (slide_height (prs st)) f]\<rparr>"
  by (cases "rd (getvalue f)"; cases "snd (projr (rd (getvalue f)))")
     (auto simp: process_image_def NamedTemporaryFile_def add_picture_def slide_of_def Let_def
           split: prod.splits sum.splits)

lemma process_images_prs:
  "prs (process_images rd ar image_files st) =
     (prs st)\<lparr>slides := slides (prs st)
                  @ map (slide_of rd ar (slide_width (prs st)) (slide_height (prs st)))
                      image_files\<rparr>"
  by (induction image_files arbitrary: st) (simp_all add: process_image_prs)

lemma slide_size_16_9:
  "Inches (fst get_default_slide_size) = 12188952 \<and> Inches (snd get_default_slide_size) = 6858000"
  by (simp add: get_default_slide_size_def Inches_def)

lemma generate_ppt_from_images_prs:
  "prs (generate_ppt_from_images rd image_files ar fsys) =
     \<lparr>slide_width = 12188952, slide_height = 6858000,
      slides = map (slide_of rd ar 12188952 6858000) image_files\<rparr>"
  by (simp add: generate_ppt_from_images_def get_default_slide_size_def Inches_def
        process_images_prs)

text \<open>
  The deck has one slide for each uploaded file, in the order of the upload, whether or
  not the image could be read.
\<close>

lemma one_slide_per_uploaded_file:
  "length (slides (prs (generate_ppt_from_images rd image_files ar fsys))) = length image_files"
  by (simp add: generate_ppt_from_images_prs)

text \<open>
  When every uploaded image can be read, every slide holds exactly one picture, at the
  origin, showing the images in the order of the upload: with the extent of the slide under
  \<open>auto_resize\<close>, with the native extent without it.
\<close>

lemma readable_images_fill_the_slide:
  assumes "\<forall>f \<in> set image_files. \<exists>native. rd (getvalue f) = Inr native"
  shows "slides (prs (generate_ppt_from_images rd image_files True fsys)) =
           map (\<lambda>f. \<lparr>shapes = [Picture \<lparr>pic_image = getvalue f, pic_left = 0, pic_top = 0,
                                         pic_width = 12188952, pic_height = 6858000\<rparr>]\<rparr>)
             image_files"
  using assms by (auto simp: generate_ppt_from_images_prs slide_of_def)

lemma readable_images_keep_native_size:
  assumes "\<forall>f \<in> set image_files. rd (getvalue f) = Inr (native f)"
  shows "slides (prs (generate_ppt_from_images rd image_files False fsys)) =
           map (\<lambda>f. \<lparr>shapes = [Picture \<lparr>pic_image = getvalue f, pic_left = 0, pic_top = 0,
                                         pic_width = fst (native f),
                                         pic_height = snd (native f)\<rparr>]\<rparr>)
             image_files"
  using assms by (auto simp: generate_ppt_from_images_prs slide_of_def)

text \<open>
  One pass of the loop body for an image that can be read removes the temporary file it
  created; for an image that cannot be read the file stays.
\<close>

lemma process_image_files:
  "files (fs (process_image rd ar f st)) =
     (case rd (getvalue f) of
        Inr native \<Rightarrow>
          (files (fs st))((next_serial (fs st), ''.'' @ last (split_on CHR ''.'' (name f))) := None)
      | Inl msg \<Rightarrow>
          (files (fs st))((next_serial (fs st), ''.'' @ last (split_on CHR ''.'' (name f)))
                            \<mapsto> getvalue f))"
  by (auto simp: process_image_def NamedTemporaryFile_def add_picture_def unlink_def Let_def
           split: prod.splits sum.splits)

text \<open>
  Claim C8. For the empty list of images and either value of \<open>auto_resize\<close> the assembler
  returns the presentation of size 12188952 by 6858000 with no slide, writes nothing to the
  log and leaves the temporary files as they were.
\<close>

theorem empty_input_gives_empty_deck:
  "generate_ppt_from_images rd [] auto_resize fsys =
     \<lparr>prs = \<lparr>slide_width = 12188952, slide_height = 6858000, slides = []\<rparr>,
      fs = fsys, error_log = []\<rparr>"
  by (simp add: generate_ppt_from_images_def get_default_slide_size_def Inches_def)

text \<open>
  Claim C1, at the input of the specification's own scenario: of three uploads the second
  cannot be read. The deck has three slides, not two; the second is a slide without any
  shape, left behind by \<^verbatim>\<open>add_slide\<close> when \<^verbatim>\<open>add_picture\<close> raised.
\<close>

theorem unreadable_image_still_adds_slide:
  "map shapes (slides (prs (generate_ppt_from_images sample_reader
        [valid_png, corrupt_jpg, valid2_png] True no_temporary_files))) =
     [[Picture \<lparr>pic_image = [137, 80, 78, 71], pic_left = 0, pic_top = 0,
                pic_width = 12188952, pic_height = 6858000\<rparr>],
      [],
      [Picture \<lparr>pic_image = [137, 80], pic_left = 0, pic_top = 0,
                pic_width = 12188952, pic_height = 6858000\<rparr>]]"
  by (simp add: generate_ppt_from_images_prs slide_of_def sample_reader_def valid_png_def
        corrupt_jpg_def valid2_png_def)

text \<open>
  Claim C5, at an upload that cannot be read, with \<open>auto_resize\<close> on: the deck has one slide
  and that slide holds no picture.
\<close>

theorem auto_resize_slide_without_picture:
  "slides (prs (generate_ppt_from_images sample_reader [corrupt_jpg] True no_temporary_files))
     = [\<lparr>shapes = []\<rparr>]"
  by (simp add: generate_ppt_from_images_prs slide_of_def sample_reader_def corrupt_jpg_def)

text \<open>
  Claim C6, at an upload that cannot be read, with \<open>auto_resize\<close> off: the deck has one slide
  and that slide holds no picture.
\<close>

theorem native_size_slide_without_picture:
  "slides (prs (generate_ppt_from_images sample_reader [corrupt_jpg] False no_temporary_files))
     = [\<lparr>shapes = []\<rparr>]"
  by (simp add: generate_ppt_from_images_prs slide_of_def sample_reader_def corrupt_jpg_def)

text \<open>
  Claim C9, at two uploads of which the first cannot be read: when the call returns, after
  the second image has been processed, the temporary file of the first still exists with
  the bytes of the upload, while the file of the second has been removed.
\<close>

theorem temporary_file_of_unreadable_image_stays:
  "files (fs (generate_ppt_from_images sample_reader [corrupt_jpg, valid_png] True
        no_temporary_files)) (0, ''.jpg'') = Some [0, 1]
   \<and> files (fs (generate_ppt_from_images sample_reader [corrupt_jpg, valid_png] True
        no_temporary_files)) (1, ''.png'') = None"
  by (simp add: generate_ppt_from_images_def get_default_slide_size_def process_image_def
        NamedTemporaryFile_def add_picture_def unlink_def sample_reader_def corrupt_jpg_def
        valid_png_def no_temporary_files_def Let_def)

end
